theory Spec2Isabelle
  imports Complex_Main "HOL-Library.Word" "HOL-Library.Signed_Division"
begin

unbundle bit_operations_syntax

section \<open>The rawmux demuxer (libavformat/rawmuxdec.c)\<close>

text \<open>
  A shallow embedding of the three entry points of the demuxer:
  \<open>rawmux_read_probe\<close>, \<open>rawmux_read_header\<close> and \<open>rawmux_read_packet\<close>.
  The functions of libavformat, libavcodec and libavutil that the file calls are not part
  of the file. The byte reader, the stream allocation, the time-base setter, the rescale
  and the packet read are modelled from the specification and marked so; the lookup
  tables (pixel formats, decoders, buffer sizes) are parameters, collected in the record
  \<open>registry\<close>.

  C values of type \<open>int\<close> are mathematical integers here; every conversion between the
  unsigned values read from the input and \<open>int\<close> is written out (\<open>sint\<close>, \<open>to_int\<close>,
  \<open>to_unsigned\<close>).
\<close>

subsection \<open>Bytes, C integers and C strings\<close>

type_synonym byte = "8 word"

text \<open>A C string without its terminating NUL.\<close>
type_synonym cstring = "byte list"

definition cstr :: "string \<Rightarrow> cstring" where
  "cstr s = map of_char s"

text \<open>Conversion of an integer value to C \<open>int\<close> (32 bits, two's complement).\<close>
definition to_int :: "int \<Rightarrow> int" where
  "to_int x = signed_take_bit 31 x"

text \<open>Conversion of an integer value to C \<open>unsigned int\<close> (32 bits).\<close>
definition to_unsigned :: "int \<Rightarrow> int" where
  "to_unsigned x = take_bit 32 x"

subsection \<open>The byte reader\<close>

text \<open>
  Modelled from the spec: the AVIOContext of libavformat/aviobuf.c, the byte-oriented
  input source of sections 1 and 6. The context is the list of bytes not yet read; the
  cursor advances by dropping bytes from its front.
\<close>
type_synonym AVIOContext = "byte list"

text \<open>
  Modelled from the spec: avio_r8, one unsigned byte. The source never tests its result,
  so the read has a value at the end of the input as well: 0.
\<close>
definition avio_r8 :: "AVIOContext \<Rightarrow> byte \<times> AVIOContext" where
  "avio_r8 pb = (case pb of [] \<Rightarrow> (0, []) | b # bs \<Rightarrow> (b, bs))"

text \<open>Modelled from the spec: avio_rl32, a little-endian unsigned 32-bit integer.\<close>
definition avio_rl32 :: "AVIOContext \<Rightarrow> 32 word \<times> AVIOContext" where
  "avio_rl32 pb =
     (let (b0, pb0) = avio_r8 pb;
          (b1, pb1) = avio_r8 pb0;
          (b2, pb2) = avio_r8 pb1;
          (b3, pb3) = avio_r8 pb2
      in (ucast b0 OR push_bit 8 (ucast b1) OR push_bit 16 (ucast b2) OR push_bit 24 (ucast b3),
          pb3))"

text \<open>Modelled from the spec: avio_rl64, a little-endian 64-bit integer.\<close>
definition avio_rl64 :: "AVIOContext \<Rightarrow> 64 word \<times> AVIOContext" where
  "avio_rl64 pb =
     (let (lo, pb0) = avio_rl32 pb;
          (hi, pb1) = avio_rl32 pb0
      in (ucast lo OR push_bit 32 (ucast hi), pb1))"

text \<open>Modelled from the spec: avio_skip, advance the cursor by \<open>n\<close> bytes.\<close>
definition avio_skip :: "AVIOContext \<Rightarrow> nat \<Rightarrow> AVIOContext" where
  "avio_skip pb n = drop n pb"

text \<open>
  Modelled from the spec: the read loop of avio_get_str. At most \<open>maxlen\<close> bytes of
  the field are consumed, stopping after the first NUL; the result is the bytes before it.
\<close>
fun get_str_bytes :: "nat \<Rightarrow> AVIOContext \<Rightarrow> cstring \<times> AVIOContext" where
  "get_str_bytes 0 pb = ([], pb)"
| "get_str_bytes (Suc n) pb =
     (case avio_r8 pb of (c, pb') \<Rightarrow>
        if c = 0 then ([], pb')
        else (case get_str_bytes n pb' of (s, pb'') \<Rightarrow> (c # s, pb'')))"

text \<open>
  Modelled from the spec: avio_get_str, a NUL-terminated or length-truncated string read
  into a buffer of \<open>buflen\<close> bytes from a field of at most \<open>maxlen\<close> bytes. The
  buffer keeps one byte for the terminator; excess characters are dropped silently.
\<close>
definition avio_get_str :: "AVIOContext \<Rightarrow> nat \<Rightarrow> nat \<Rightarrow> cstring \<times> AVIOContext" where
  "avio_get_str pb maxlen buflen =
     (case get_str_bytes maxlen pb of (s, pb') \<Rightarrow> (take (min (buflen - 1) maxlen) s, pb'))"

subsection \<open>Streams, codec parameters and the format context\<close>

text \<open>
  The structures of avformat.h, avcodec.h and rational.h, with the fields the demuxer
  reads or writes. Of the media types and codec ids only those the demuxer names have a
  constructor of their own.
\<close>
datatype AVMediaType =
    AVMEDIA_TYPE_UNKNOWN
  | AVMEDIA_TYPE_VIDEO
  | AVMEDIA_TYPE_AUDIO
  | AVMEDIA_TYPE_OTHER

datatype AVCodecID =
    AV_CODEC_ID_NONE
  | AV_CODEC_ID_RAWVIDEO
  | AV_CODEC_ID nat

record AVRational =
  num :: int
  den :: int

record AVCodec =
  avcodec_id :: AVCodecID
  avcodec_type :: AVMediaType

record AVCodecParameters =
  codec_type :: AVMediaType
  codec_id :: AVCodecID
  format :: int
  width :: int
  height :: int
  bit_rate :: int
  sample_rate :: int
  channels :: int
  bits_per_coded_sample :: int
  block_align :: int

record AVStream =
  index :: nat
  codecpar :: AVCodecParameters
  time_base :: AVRational
  pts_wrap_bits :: int

text \<open>
  The format context: the input cursor \<open>pb\<close>, the streams created so far
  (\<open>nb_streams\<close> is the length of the list) and the number of streams the context
  lets \<open>avformat_new_stream\<close> create.
\<close>
record AVFormatContext =
  pb :: AVIOContext
  streams :: "AVStream list"
  max_streams :: nat

text \<open>
  The lookup tables of libavutil and libavcodec, parameters of the model:
  the pixel format of a name (\<open>AV_PIX_FMT_NONE\<close> when there is none), the buffer size
  of a format at a width, height and alignment (negative: an error code), the decoder
  of a name, and the bits per sample of a codec. The last field is what the rescale of
  \<open>a * b\<close> returns when it is asked to divide by zero, a case for which neither the
  source nor the specification gives a value.
\<close>
record registry =
  av_get_pix_fmt :: "cstring \<Rightarrow> int"
  av_image_get_buffer_size :: "int \<Rightarrow> int \<Rightarrow> int \<Rightarrow> int \<Rightarrow> int"
  avcodec_find_decoder_by_name :: "cstring \<Rightarrow> AVCodec option"
  av_get_bits_per_sample :: "AVCodecID \<Rightarrow> int"
  rescale_zero_divisor :: "int \<Rightarrow> int \<Rightarrow> int"

text \<open>
  Modelled from the spec: AV_PIX_FMT_NONE (libavutil/pixfmt.h), the "none" that the
  pixel-format lookup returns for a name it does not know.
\<close>
definition AV_PIX_FMT_NONE :: int where
  "AV_PIX_FMT_NONE = - 1"

subsection \<open>Failures\<close>

text \<open>
  One constructor for each place where the demuxer gives up. The first five log a
  message and return \<open>AVERROR_INVALIDDATA\<close>; they are told apart by the message, which
  is what the specification's error names stand for:
  \<open>Invalid_version\<close> is UnsupportedVersion, \<open>Invalid_stream_type\<close> is
  InvalidStreamType, \<open>Too_many_streams\<close> is TooManyStreams, \<open>Invalid_pixel_format\<close>
  is InvalidPixelFormat and \<open>Invalid_codec\<close> is InvalidAudioCodec.
  \<open>No_memory\<close> is \<open>AVERROR(ENOMEM)\<close>, \<open>Buffer_size_error\<close> carries the negative
  result of \<open>av_image_get_buffer_size\<close>, \<open>Assertion_failed\<close> is the abort of
  \<open>av_assert0\<close>, \<open>Short_read\<close> is the failure of \<open>av_get_packet\<close>.
\<close>
datatype failure =
    Invalid_version byte
  | Invalid_stream_type byte
  | Too_many_streams
  | Invalid_pixel_format cstring nat
  | Invalid_codec cstring nat
  | No_memory
  | Buffer_size_error int
  | Assertion_failed
  | Short_read

subsection \<open>Functions of libavformat and libavutil the demuxer calls\<close>

text \<open>
  Modelled from the spec: the track descriptor that avformat_new_stream
  (libavformat/utils.c) allocates. Its index is given; its other fields are blank.
\<close>
definition blank_stream :: "nat \<Rightarrow> AVStream" where
  "blank_stream i =
     \<lparr> index = i,
       codecpar = \<lparr> codec_type = AVMEDIA_TYPE_UNKNOWN, codec_id = AV_CODEC_ID_NONE,
                    format = - 1, width = 0, height = 0, bit_rate = 0, sample_rate = 0,
                    channels = 0, bits_per_coded_sample = 0, block_align = 0 \<rparr>,
       time_base = \<lparr> num = 0, den = 0 \<rparr>,
       pts_wrap_bits = 0 \<rparr>"

text \<open>
  Modelled from the spec: avformat_new_stream (libavformat/utils.c). A new track
  descriptor is appended to the catalog, its index the catalog's length before. The
  source tests for a null result: the model returns \<open>None\<close> when the context's
  stream limit is reached.
\<close>
definition avformat_new_stream :: "AVFormatContext \<Rightarrow> (AVStream \<times> AVFormatContext) option" where
  "avformat_new_stream avctx =
     (if max_streams avctx \<le> length (streams avctx) then None
      else let st = blank_stream (length (streams avctx))
           in Some (st, avctx\<lparr>streams := streams avctx @ [st]\<rparr>))"

text \<open>
  Modelled from the spec: avpriv_set_pts_info (libavformat/utils.c). The two unsigned
  values become the track's time base, with the given timestamp precision.
\<close>
definition avpriv_set_pts_info :: "AVStream \<Rightarrow> int \<Rightarrow> int \<Rightarrow> int \<Rightarrow> AVStream" where
  "avpriv_set_pts_info st wrap_bits pts_num pts_den =
     st\<lparr>time_base := \<lparr> num = pts_num, den = pts_den \<rparr>, pts_wrap_bits := wrap_bits\<rparr>"

text \<open>
  Modelled from the spec: av_rescale_q (libavutil/mathematics.c), \<open>a * bq / cq\<close>
  rounded to the nearest integer. When the divisor \<open>num cq * den bq\<close> is zero the
  quotient has no value; the function still returns, and what it returns is the
  registry's \<open>rescale_zero_divisor\<close>.
\<close>
definition av_rescale_q :: "registry \<Rightarrow> int \<Rightarrow> AVRational \<Rightarrow> AVRational \<Rightarrow> int" where
  "av_rescale_q reg a bq cq =
     (let b = num bq * den cq;
          c = num cq * den bq
      in if c = 0 then rescale_zero_divisor reg a b else (2 * (a * b) + c) div (2 * c))"

text \<open>
  Modelled from the spec: av_get_packet (libavformat/utils.c), section 4.3 step 4.
  Exactly \<open>n\<close> bytes are read from \<open>s\<close> into a fresh buffer; the read fails when
  fewer than \<open>n\<close> bytes are left. The specification takes the count as unsigned and
  says nothing of a negative one: here no input holds fewer bytes than that, and no
  byte is read.
\<close>
definition av_get_packet :: "AVIOContext \<Rightarrow> int \<Rightarrow> failure + (byte list \<times> AVIOContext)" where
  "av_get_packet s n =
     (if int (length s) < n then Inl Short_read
      else Inr (take (nat n) s, drop (nat n) s))"

subsection \<open>The probe\<close>

text \<open>The probe buffer: \<open>buf_size\<close> is the length of \<open>buf\<close>.\<close>
record AVProbeData =
  buf :: "byte list"

definition buf_size :: "AVProbeData \<Rightarrow> int" where
  "buf_size p = int (length (buf p))"

definition HEADER :: "byte list" where
  "HEADER = cstr ''rawmux''"

text \<open>
  Modelled from the spec: AVPROBE_SCORE_MAX (libavformat/avformat.h), the maximum
  confidence score.
\<close>
definition AVPROBE_SCORE_MAX :: int where
  "AVPROBE_SCORE_MAX = 100"

text \<open>\<open>memcmp(HEADER, p->buf, sizeof(HEADER))\<close> is nonzero when the first six bytes differ.\<close>
definition rawmux_read_probe :: "AVProbeData \<Rightarrow> int" where
  "rawmux_read_probe p =
     (if buf_size p < int (length HEADER) \<or> take (length HEADER) (buf p) \<noteq> HEADER then 0
      else AVPROBE_SCORE_MAX)"

subsection \<open>The header\<close>

definition STREAM_NONE :: byte where "STREAM_NONE = 0"
definition STREAM_VIDEO :: byte where "STREAM_VIDEO = 1"
definition STREAM_AUDIO :: byte where "STREAM_AUDIO = 2"

text \<open>
  The video branch of the loop body (lines 80 to 107). \<open>st\<close> is the stream just
  allocated; the result is the failure (if any), the stream as the branch left it and the
  cursor.
\<close>
definition read_video ::
  "registry \<Rightarrow> AVStream \<Rightarrow> AVIOContext \<Rightarrow> failure option \<times> AVStream \<times> AVIOContext" where
  "read_video reg st pb0 =
     (let st1 = st\<lparr>codecpar := (codecpar st)\<lparr>codec_type := AVMEDIA_TYPE_VIDEO,
                                               codec_id := AV_CODEC_ID_RAWVIDEO\<rparr>\<rparr>;
          (pix_fmt_name, pb1) = avio_get_str pb0 32 32;
          st2 = st1\<lparr>codecpar := (codecpar st1)\<lparr>format := av_get_pix_fmt reg pix_fmt_name\<rparr>\<rparr>
      in if format (codecpar st2) = AV_PIX_FMT_NONE
         then (Some (Invalid_pixel_format pix_fmt_name (index st2)), st2, pb1)
         else
           let (n, pb2) = avio_rl32 pb1;
               tb_num = sint n;
               (d, pb3) = avio_rl32 pb2;
               tb_den = sint d;
               st3 = avpriv_set_pts_info st2 64 (to_unsigned tb_num) (to_unsigned tb_den);
               (w, pb4) = avio_rl32 pb3;
               st4 = st3\<lparr>codecpar := (codecpar st3)\<lparr>width := sint w\<rparr>\<rparr>;
               (h, pb5) = avio_rl32 pb4;
               st5 = st4\<lparr>codecpar := (codecpar st4)\<lparr>height := sint h\<rparr>\<rparr>;
               size = av_image_get_buffer_size reg (format (codecpar st5))
                        (width (codecpar st5)) (height (codecpar st5)) 1
           in if size < 0 then (Some (Buffer_size_error size), st5, pb5)
              else (None,
                    st5\<lparr>codecpar := (codecpar st5)\<lparr>bit_rate :=
                      av_rescale_q reg size \<lparr> num = 8, den = 1 \<rparr> (time_base st5)\<rparr>\<rparr>,
                    pb5))"

text \<open>The audio branch of the loop body (lines 108 to 129).\<close>
definition read_audio ::
  "registry \<Rightarrow> AVStream \<Rightarrow> AVIOContext \<Rightarrow> failure option \<times> AVStream \<times> AVIOContext" where
  "read_audio reg st pb0 =
     (let (suffix, pb1) = avio_get_str pb0 (32 - 4) (32 - 4);
          codec_name = cstr ''pcm_'' @ suffix
      in case avcodec_find_decoder_by_name reg codec_name of
           None \<Rightarrow> (Some (Invalid_codec codec_name (index st)), st, pb1)
         | Some codec \<Rightarrow>
             if avcodec_type codec \<noteq> AVMEDIA_TYPE_AUDIO
             then (Some (Invalid_codec codec_name (index st)), st, pb1)
             else
               let st1 = st\<lparr>codecpar := (codecpar st)\<lparr>codec_type := AVMEDIA_TYPE_AUDIO,
                                                         codec_id := avcodec_id codec\<rparr>\<rparr>;
                   (sr, pb2) = avio_rl32 pb1;
                   st2 = st1\<lparr>codecpar := (codecpar st1)\<lparr>sample_rate := sint sr\<rparr>\<rparr>;
                   (ch, pb3) = avio_r8 pb2;
                   st3 = st2\<lparr>codecpar := (codecpar st2)\<lparr>channels := uint ch\<rparr>\<rparr>;
                   st4 = st3\<lparr>codecpar := (codecpar st3)\<lparr>bits_per_coded_sample :=
                            av_get_bits_per_sample reg (codec_id (codecpar st3))\<rparr>\<rparr>
               in if \<not> 0 < bits_per_coded_sample (codecpar st4)
                  then (Some Assertion_failed, st4, pb3)
                  else
                    let st5 = st4\<lparr>codecpar := (codecpar st4)\<lparr>block_align :=
                                 to_int (to_int (bits_per_coded_sample (codecpar st4) *
                                                 channels (codecpar st4)) sdiv 8)\<rparr>\<rparr>;
                        st6 = avpriv_set_pts_info st5 64 1
                                (to_unsigned (sample_rate (codecpar st5)))
                    in (None, st6, pb3))"

text \<open>
  One pass of the loop body (lines 64 to 129) for the type byte \<open>t\<close>, already read and
  not the terminator. The stream is part of the context from its allocation on, also
  when the pass fails.
\<close>
definition read_stream ::
  "registry \<Rightarrow> byte \<Rightarrow> AVFormatContext \<Rightarrow> failure option \<times> AVFormatContext" where
  "read_stream reg t avctx =
     (if STREAM_AUDIO < t then (Some (Invalid_stream_type t), avctx)
      else case avformat_new_stream avctx of
             None \<Rightarrow> (Some No_memory, avctx)
           | Some (st, avctx1) \<Rightarrow>
               if 255 < index st then (Some Too_many_streams, avctx1)
               else
                 let (r, st', pb') =
                       (if t = STREAM_VIDEO then read_video reg st (pb avctx1)
                        else if t = STREAM_AUDIO then read_audio reg st (pb avctx1)
                        else (None, st, pb avctx1))
                 in (r, avctx1\<lparr>pb := pb', streams := (streams avctx1)[index st := st']\<rparr>))"

text \<open>
  The loop of lines 63 to 130. It ends: every pass that does not return adds a stream,
  and a pass that finds more than 256 streams returns.
\<close>
function read_stream_table ::
  "registry \<Rightarrow> AVFormatContext \<Rightarrow> failure option \<times> AVFormatContext" where
  "read_stream_table reg avctx =
     (case avio_r8 (pb avctx) of (t, pb') \<Rightarrow>
        if t = STREAM_NONE then (None, avctx\<lparr>pb := pb'\<rparr>)
        else (case read_stream reg t (avctx\<lparr>pb := pb'\<rparr>) of
                (Some e, avctx') \<Rightarrow> (Some e, avctx')
              | (None, avctx') \<Rightarrow> read_stream_table reg avctx'))"
  by pat_completeness auto
termination
proof (relation "measure (\<lambda>(reg, avctx). 257 - length (streams avctx))", goal_cases)
  case 1
  show ?case by simp
next
  case (2 reg avctx t pb' r avctx')
  then have "read_stream reg t (avctx\<lparr>pb := pb'\<rparr>) = (None, avctx')"
    by simp
  then have "length (streams avctx') = Suc (length (streams avctx)) \<and> length (streams avctx) \<le> 255"
    by (auto simp: read_stream_def avformat_new_stream_def blank_stream_def Let_def
             split: if_splits option.splits prod.splits)
  then show ?case
    by simp arith
qed

declare read_stream_table.simps [simp del]

text \<open>\<open>rawmux_read_header\<close> (lines 50 to 133): the result and the context it leaves.\<close>
definition rawmux_read_header ::
  "registry \<Rightarrow> AVFormatContext \<Rightarrow> failure option \<times> AVFormatContext" where
  "rawmux_read_header reg avctx =
     (let pb0 = avio_skip (pb avctx) (length HEADER);
          (version, pb1) = avio_r8 pb0
      in if version \<noteq> 1 then (Some (Invalid_version version), avctx\<lparr>pb := pb1\<rparr>)
         else read_stream_table reg (avctx\<lparr>pb := pb1\<rparr>))"

subsection \<open>Packets\<close>

record AVPacket =
  data :: "byte list"
  pts :: int
  dts :: int
  stream_index :: int

text \<open>\<open>rawmux_read_packet\<close> (lines 135 to 152): a failure, or the packet and the context.\<close>
definition rawmux_read_packet :: "AVFormatContext \<Rightarrow> failure + (AVPacket \<times> AVFormatContext)" where
  "rawmux_read_packet avctx =
     (let (stream, pb1) = avio_r8 (pb avctx);
          (sz, pb2) = avio_rl32 pb1;
          size = sint sz;
          (ts, pb3) = avio_rl64 pb2;
          pts0 = sint ts
      in case av_get_packet pb3 size of
           Inl ret \<Rightarrow> Inl ret
         | Inr (payload, pb4) \<Rightarrow>
             Inr (\<lparr> data = payload, pts = pts0, dts = pts0, stream_index = uint stream \<rparr>,
                  avctx\<lparr>pb := pb4\<rparr>))"

subsection \<open>Example inputs\<close>

text \<open>
  A small registry: one packed pixel format of four bytes per pixel, one 16-bit PCM
  decoder, and a rescale that answers \<open>- 2^63\<close> when asked to divide by zero.
\<close>
definition example_registry :: registry where
  "example_registry =
     \<lparr> av_get_pix_fmt = (\<lambda>name. if name = cstr ''rgba'' then 26 else AV_PIX_FMT_NONE),
       av_image_get_buffer_size =
         (\<lambda>fmt w h align. if fmt = 26 \<and> 0 < w \<and> 0 < h then 4 * w * h else - 22),
       avcodec_find_decoder_by_name =
         (\<lambda>name. if name = cstr ''pcm_s16le''
                  then Some \<lparr> avcodec_id = AV_CODEC_ID 65536, avcodec_type = AVMEDIA_TYPE_AUDIO \<rparr>
                  else None),
       av_get_bits_per_sample = (\<lambda>c. if c = AV_CODEC_ID 65536 then 16 else 0),
       rescale_zero_divisor = (\<lambda>a b. - 9223372036854775808) \<rparr>"

text \<open>A fresh context on the input \<open>bs\<close>.\<close>
definition example_context :: "byte list \<Rightarrow> AVFormatContext" where
  "example_context bs = \<lparr> pb = bs, streams = [], max_streams = 1000 \<rparr>"

text \<open>A video descriptor after its type byte: format rgba, time base 1/30, 2 by 2 pixels.\<close>
definition example_video :: "byte list" where
  "example_video = cstr ''rgba'' @ [0, 1, 0, 0, 0, 30, 0, 0, 0, 2, 0, 0, 0, 2, 0, 0, 0]"

text \<open>The same with the numerator 0, and with the denominator 0.\<close>
definition zero_num_video :: "byte list" where
  "zero_num_video = cstr ''rgba'' @ [0, 0, 0, 0, 0, 30, 0, 0, 0, 2, 0, 0, 0, 2, 0, 0, 0]"

definition zero_den_video :: "byte list" where
  "zero_den_video = cstr ''rgba'' @ [0, 1, 0, 0, 0, 0, 0, 0, 0, 2, 0, 0, 0, 2, 0, 0, 0]"

text \<open>An audio descriptor after its type byte: codec pcm_s16le, 44100 Hz, 2 channels.\<close>
definition example_audio :: "byte list" where
  "example_audio = cstr ''s16le'' @ [0, 68, 172, 0, 0, 2]"

text \<open>A header: the magic, version 1, the two descriptors and the terminator.\<close>
definition example_header :: "byte list" where
  "example_header = HEADER @ [1] @ [1] @ example_video @ [2] @ example_audio @ [0]"

text \<open>The streams the example header declares.\<close>
definition example_video_stream :: "nat \<Rightarrow> AVStream" where
  "example_video_stream i =
     \<lparr> index = i,
       codecpar = \<lparr> codec_type = AVMEDIA_TYPE_VIDEO, codec_id = AV_CODEC_ID_RAWVIDEO,
                    format = 26, width = 2, height = 2, bit_rate = 3840, sample_rate = 0,
                    channels = 0, bits_per_coded_sample = 0, block_align = 0 \<rparr>,
       time_base = \<lparr> num = 1, den = 30 \<rparr>,
       pts_wrap_bits = 64 \<rparr>"

definition example_audio_stream :: "nat \<Rightarrow> AVStream" where
  "example_audio_stream i =
     \<lparr> index = i,
       codecpar = \<lparr> codec_type = AVMEDIA_TYPE_AUDIO, codec_id = AV_CODEC_ID 65536,
                    format = - 1, width = 0, height = 0, bit_rate = 0, sample_rate = 44100,
                    channels = 2, bits_per_coded_sample = 16, block_align = 4 \<rparr>,
       time_base = \<lparr> num = 1, den = 44100 \<rparr>,
       pts_wrap_bits = 64 \<rparr>"

text \<open>Stream 200, three payload bytes, timestamp 1.\<close>
definition example_packet :: "byte list" where
  "example_packet = [200, 3, 0, 0, 0, 1, 0, 0, 0, 0, 0, 0, 0, 10, 20, 30]"








section \<open>Facts about the reader and the integer conversions\<close>

lemma avio_r8_Nil: "avio_r8 [] = (0, [])"
  by (simp add: avio_r8_def)

lemma avio_r8_Cons: "avio_r8 (b # bs) = (b, bs)"
  by (simp add: avio_r8_def)

lemma avio_rl32_Cons:
  "avio_rl32 (b0 # b1 # b2 # b3 # bs) =
     (ucast b0 OR push_bit 8 (ucast b1) OR push_bit 16 (ucast b2) OR push_bit 24 (ucast b3), bs)"
  by (simp add: avio_rl32_def avio_r8_Cons)

lemma avio_rl64_Cons:
  "avio_rl64 (b0 # b1 # b2 # b3 # b4 # b5 # b6 # b7 # bs) =
     (ucast (ucast b0 OR push_bit 8 (ucast b1) OR push_bit 16 (ucast b2) OR
             push_bit 24 (ucast b3) :: 32 word) OR
      push_bit 32 (ucast (ucast b4 OR push_bit 8 (ucast b5) OR push_bit 16 (ucast b6) OR
                          push_bit 24 (ucast b7) :: 32 word)), bs)"
  by (simp add: avio_rl64_def avio_rl32_Cons)

lemma get_str_bytes_terminated:
  "0 \<notin> set s \<Longrightarrow> length s < n \<Longrightarrow> get_str_bytes n (s @ 0 # bs) = (s, bs)"
proof (induction s arbitrary: n)
  case Nil
  then obtain m where "n = Suc m" by (cases n) auto
  then show ?case by (simp add: avio_r8_Cons)
next
  case (Cons c s)
  then obtain m where n: "n = Suc m" by (cases n) auto
  with Cons.prems have "get_str_bytes m (s @ 0 # bs) = (s, bs)"
    by (intro Cons.IH) auto
  with Cons.prems n show ?case by (simp add: avio_r8_Cons)
qed

lemma avio_get_str_terminated:
  "0 \<notin> set s \<Longrightarrow> length s < maxlen \<Longrightarrow> length s < buflen \<Longrightarrow>
   avio_get_str (s @ 0 # bs) maxlen buflen = (s, bs)"
  by (simp add: avio_get_str_def get_str_bytes_terminated)


lemma to_unsigned_sint: "to_unsigned (sint (w :: 32 word)) = uint w"
  by (simp add: to_unsigned_def uint_sint)

lemma length_HEADER: "length HEADER = 6"
  by (simp add: HEADER_def cstr_def)

lemma to_unsigned_0: "to_unsigned 0 = 0"
  by (simp add: to_unsigned_def)




lemma uint_byte_le: "uint (b :: byte) \<le> 255"
  using uint_lt2p [of b] by simp

text \<open>The rescale is the quotient rounded to the nearest integer.\<close>
lemma round_div:
  assumes "c \<noteq> 0"
  shows "(2 * n + c) div (2 * c) = round (real_of_int n / real_of_int c)"
proof -
  from assms have "real_of_int n / real_of_int c + 1 / 2 = real_of_int (2 * n + c) / real_of_int (2 * c)"
    by (simp add: field_simps)
  then have "round (real_of_int n / real_of_int c) = \<lfloor>real_of_int (2 * n + c) / real_of_int (2 * c)\<rfloor>"
    by (simp only: round_def)
  then show ?thesis
    by (simp only: floor_divide_of_int_eq)
qed

lemma av_rescale_q_round:
  assumes "num cq * den bq \<noteq> 0"
  shows "av_rescale_q reg a bq cq =
           round (real_of_int (a * (num bq * den cq)) / real_of_int (num cq * den bq))"
  using round_div [OF assms, of "a * (num bq * den cq)"] assms
  by (simp add: av_rescale_q_def Let_def)

lemma av_rescale_q_zero:
  assumes "num cq * den bq = 0"
  shows "av_rescale_q reg a bq cq = rescale_zero_divisor reg a (num bq * den cq)"
  using assms by (simp add: av_rescale_q_def Let_def)

lemma uint_nonzero: "(n :: 32 word) \<noteq> 0 \<Longrightarrow> uint n \<noteq> 0"
  by (simp add: unsigned_eq_0_iff)

section \<open>Facts about one pass of the loop\<close>

lemma index_blank_stream: "index (blank_stream i) = i"
  by (simp add: blank_stream_def)

lemma codec_type_blank_stream: "codec_type (codecpar (blank_stream i)) = AVMEDIA_TYPE_UNKNOWN"
  by (simp add: blank_stream_def)

lemma read_video_not_too_many: "fst (read_video reg st p) \<noteq> Some Too_many_streams"
  by (simp add: read_video_def Let_def split: prod.splits option.splits)

lemma read_audio_not_too_many: "fst (read_audio reg st p) \<noteq> Some Too_many_streams"
  by (simp add: read_audio_def Let_def split: prod.splits option.splits)

text \<open>
  The video branch in terms of the values it reads: what it does when the name resolves
  and the buffer size is not negative, and what must have been the case when it returns
  without a failure.
\<close>
lemma read_video_accepts:
  assumes "avio_get_str p0 32 32 = (name, p1)"
    and "avio_rl32 p1 = (n, p2)" and "avio_rl32 p2 = (d, p3)"
    and "avio_rl32 p3 = (w, p4)" and "avio_rl32 p4 = (h, p5)"
    and "av_get_pix_fmt reg name \<noteq> AV_PIX_FMT_NONE"
    and "0 \<le> av_image_get_buffer_size reg (av_get_pix_fmt reg name) (sint w) (sint h) 1"
  shows "read_video reg st p0 =
           (None,
            st\<lparr>codecpar := (codecpar st)
                  \<lparr>codec_type := AVMEDIA_TYPE_VIDEO, codec_id := AV_CODEC_ID_RAWVIDEO,
                    format := av_get_pix_fmt reg name, width := sint w, height := sint h,
                    bit_rate := av_rescale_q reg
                      (av_image_get_buffer_size reg (av_get_pix_fmt reg name) (sint w) (sint h) 1)
                      \<lparr> num = 8, den = 1 \<rparr> \<lparr> num = uint n, den = uint d \<rparr>\<rparr>,
               time_base := \<lparr> num = uint n, den = uint d \<rparr>, pts_wrap_bits := 64\<rparr>,
            p5)"
  using assms
  by (simp add: read_video_def Let_def avpriv_set_pts_info_def to_unsigned_sint)




lemma read_audio_descriptor:
  assumes "avcodec_find_decoder_by_name reg (cstr ''pcm_'' @ sfx) = Some codec"
    and "avcodec_type codec = AVMEDIA_TYPE_AUDIO"
    and "0 < av_get_bits_per_sample reg (avcodec_id codec)"
    and "0 \<notin> set sfx" and "length sfx < 28"
  shows "\<exists>st'. read_audio reg st (sfx @ 0 # r0 # r1 # r2 # r3 # ch # p) = (None, st', p)"
  using assms
  by (simp add: read_audio_def avio_get_str_terminated avio_rl32_Cons avio_r8_Cons Let_def)


lemma read_stream_video:
  assumes "length (streams c) \<le> 255" and "length (streams c) < max_streams c"
    and "read_video reg (blank_stream (length (streams c))) (pb c) = (r, st', p')"
  shows "read_stream reg STREAM_VIDEO c = (r, c\<lparr>pb := p', streams := streams c @ [st']\<rparr>)"
  using assms
  by (simp add: read_stream_def avformat_new_stream_def Let_def index_blank_stream
        STREAM_VIDEO_def STREAM_AUDIO_def)

lemma read_stream_audio:
  assumes "length (streams c) \<le> 255" and "length (streams c) < max_streams c"
    and "read_audio reg (blank_stream (length (streams c))) (pb c) = (r, st', p')"
  shows "read_stream reg STREAM_AUDIO c = (r, c\<lparr>pb := p', streams := streams c @ [st']\<rparr>)"
  using assms
  by (simp add: read_stream_def avformat_new_stream_def Let_def index_blank_stream
        STREAM_VIDEO_def STREAM_AUDIO_def)

lemma read_stream_count:
  assumes "read_stream reg t c = (r, c')" and "length (streams c) \<le> 256"
  shows "(r = Some Too_many_streams \<longrightarrow> length (streams c') = 257) \<and>
         (r \<noteq> Some Too_many_streams \<longrightarrow> length (streams c') \<le> 256)"
proof -
  let ?st = "blank_stream (length (streams c))"
  let ?c1 = "c\<lparr>streams := streams c @ [?st]\<rparr>"
  consider (bad) "STREAM_AUDIO < t" | (full) "\<not> STREAM_AUDIO < t" "max_streams c \<le> length (streams c)"
    | (many) "\<not> STREAM_AUDIO < t" "\<not> max_streams c \<le> length (streams c)" "255 < length (streams c)"
    | (body) "\<not> STREAM_AUDIO < t" "\<not> max_streams c \<le> length (streams c)" "\<not> 255 < length (streams c)"
    by blast
  then show ?thesis
  proof cases
    case bad
    with assms show ?thesis by (auto simp: read_stream_def)
  next
    case full
    with assms show ?thesis by (auto simp: read_stream_def avformat_new_stream_def)
  next
    case many
    with assms show ?thesis
      by (auto simp: read_stream_def avformat_new_stream_def Let_def index_blank_stream)
  next
    case body
    obtain r0 st' p' where b:
      "(if t = STREAM_VIDEO then read_video reg ?st (pb ?c1)
        else if t = STREAM_AUDIO then read_audio reg ?st (pb ?c1)
        else (None, ?st, pb ?c1)) = (r0, st', p')"
      by (metis prod_cases3)
    then have "r0 \<noteq> Some Too_many_streams"
      using read_video_not_too_many [of reg ?st "pb ?c1"] read_audio_not_too_many [of reg ?st "pb ?c1"]
      by (auto split: if_splits)
    moreover from body b assms(1) have "r = r0" and "length (streams c') = Suc (length (streams c))"
      by (auto simp: read_stream_def avformat_new_stream_def Let_def index_blank_stream)
    ultimately show ?thesis using body by simp
  qed
qed

section \<open>Facts about the loop\<close>

lemma read_stream_table_end:
  "pb c = STREAM_NONE # p \<Longrightarrow> read_stream_table reg c = (None, c\<lparr>pb := p\<rparr>)"
  by (subst read_stream_table.simps) (simp add: avio_r8_Cons)

lemma read_stream_table_step:
  assumes "pb c = t # p" and "t \<noteq> STREAM_NONE"
    and "read_stream reg t (c\<lparr>pb := p\<rparr>) = (None, c')"
  shows "read_stream_table reg c = read_stream_table reg c'"
  using assms by (subst read_stream_table.simps) (simp add: avio_r8_Cons)

lemma read_stream_table_fail:
  assumes "pb c = t # p" and "t \<noteq> STREAM_NONE"
    and "read_stream reg t (c\<lparr>pb := p\<rparr>) = (Some e, c')"
  shows "read_stream_table reg c = (Some e, c')"
  using assms by (subst read_stream_table.simps) (simp add: avio_r8_Cons)

lemma rawmux_read_header_table:
  assumes "pb avctx = magic @ 1 # p" and "length magic = 6"
  shows "rawmux_read_header reg avctx = read_stream_table reg (avctx\<lparr>pb := p\<rparr>)"
  using assms
  by (simp add: rawmux_read_header_def avio_skip_def length_HEADER avio_r8_Cons)


lemma read_stream_table_count:
  assumes "read_stream_table reg avctx = (r, avctx')" and "length (streams avctx) \<le> 256"
  shows "(r = Some Too_many_streams \<longrightarrow> length (streams avctx') = 257) \<and>
         (r \<noteq> Some Too_many_streams \<longrightarrow> length (streams avctx') \<le> 256)"
  using assms
proof (induction reg avctx arbitrary: r avctx' rule: read_stream_table.induct)
  case (1 reg avctx)
  obtain t p where rd: "avio_r8 (pb avctx) = (t, p)"
    by (cases "avio_r8 (pb avctx)")
  show ?case
  proof (cases "t = STREAM_NONE")
    case True
    with "1.prems" rd have "r = None" "avctx' = avctx\<lparr>pb := p\<rparr>"
      by (subst (asm) read_stream_table.simps, simp)+
    with "1.prems"(2) show ?thesis by simp
  next
    case False
    obtain r0 c where s: "read_stream reg t (avctx\<lparr>pb := p\<rparr>) = (r0, c)"
      by (cases "read_stream reg t (avctx\<lparr>pb := p\<rparr>)")
    from read_stream_count [OF s] "1.prems"(2)
    have cnt: "(r0 = Some Too_many_streams \<longrightarrow> length (streams c) = 257) \<and>
               (r0 \<noteq> Some Too_many_streams \<longrightarrow> length (streams c) \<le> 256)"
      by simp
    show ?thesis
    proof (cases r0)
      case None
      with "1.prems"(1) rd False s have "read_stream_table reg c = (r, avctx')"
        by (subst (asm) read_stream_table.simps) simp
      moreover from cnt None have "length (streams c) \<le> 256" by simp
      ultimately show ?thesis
        using "1.IH" [OF rd [symmetric] False s [symmetric] None] by blast
    next
      case (Some e)
      with "1.prems"(1) rd False s have "r = Some e" "avctx' = c"
        by (subst (asm) read_stream_table.simps, simp)+
      with cnt Some show ?thesis by simp
    qed
  qed
qed

lemma read_stream_table_audio_pass:
  assumes "avcodec_find_decoder_by_name reg (cstr ''pcm_'' @ sfx) = Some codec"
    and "avcodec_type codec = AVMEDIA_TYPE_AUDIO"
    and "0 < av_get_bits_per_sample reg (avcodec_id codec)"
    and "0 \<notin> set sfx" and "length sfx < 28"
    and "pb c = STREAM_AUDIO # sfx @ 0 # r0 # r1 # r2 # r3 # ch # p"
    and "length (streams c) \<le> 255" and "length (streams c) < max_streams c"
  shows "\<exists>st'. read_stream_table reg c =
           read_stream_table reg (c\<lparr>pb := p, streams := streams c @ [st']\<rparr>)"
proof -
  let ?c = "c\<lparr>pb := sfx @ 0 # r0 # r1 # r2 # r3 # ch # p\<rparr>"
  from read_audio_descriptor [OF assms(1-5), of "blank_stream (length (streams c))" r0 r1 r2 r3 ch p]
  obtain st' where "read_audio reg (blank_stream (length (streams c)))
      (sfx @ 0 # r0 # r1 # r2 # r3 # ch # p) = (None, st', p)"
    by blast
  then have "read_audio reg (blank_stream (length (streams ?c))) (pb ?c) = (None, st', p)"
    by simp
  with assms(7,8) have "read_stream reg STREAM_AUDIO ?c = (None, ?c\<lparr>pb := p, streams := streams ?c @ [st']\<rparr>)"
    by (intro read_stream_audio) simp_all
  then have "read_stream reg STREAM_AUDIO ?c = (None, c\<lparr>pb := p, streams := streams c @ [st']\<rparr>)"
    by simp
  with assms(6) have "read_stream_table reg c =
      read_stream_table reg (c\<lparr>pb := p, streams := streams c @ [st']\<rparr>)"
    by (intro read_stream_table_step [where t = STREAM_AUDIO])
       (simp_all add: STREAM_AUDIO_def STREAM_NONE_def)
  then show ?thesis ..
qed

lemma read_stream_table_replicate_accepted:
  assumes "avcodec_find_decoder_by_name reg (cstr ''pcm_'' @ sfx) = Some codec"
    and "avcodec_type codec = AVMEDIA_TYPE_AUDIO"
    and "0 < av_get_bits_per_sample reg (avcodec_id codec)"
    and "0 \<notin> set sfx" and "length sfx < 28"
  shows "pb c = concat (replicate n (STREAM_AUDIO # sfx @ [0, r0, r1, r2, r3, ch])) @ STREAM_NONE # rest \<Longrightarrow>
         length (streams c) + n \<le> 256 \<Longrightarrow> length (streams c) + n \<le> max_streams c \<Longrightarrow>
         \<exists>c'. read_stream_table reg c = (None, c') \<and> length (streams c') = length (streams c) + n"
proof (induction n arbitrary: c)
  case 0
  then show ?case
    using read_stream_table_end [of c rest reg] by simp
next
  case (Suc n)
  let ?p = "concat (replicate n (STREAM_AUDIO # sfx @ [0, r0, r1, r2, r3, ch])) @ STREAM_NONE # rest"
  from Suc.prems(1) have p: "pb c = STREAM_AUDIO # sfx @ 0 # r0 # r1 # r2 # r3 # ch # ?p"
    by simp
  from Suc.prems(2,3) have "length (streams c) \<le> 255" "length (streams c) < max_streams c"
    by simp_all
  from read_stream_table_audio_pass [OF assms p this]
  obtain st' where st: "read_stream_table reg c =
      read_stream_table reg (c\<lparr>pb := ?p, streams := streams c @ [st']\<rparr>)"
    by blast
  from Suc.prems(2,3) have "\<exists>c'. read_stream_table reg (c\<lparr>pb := ?p, streams := streams c @ [st']\<rparr>) = (None, c') \<and>
      length (streams c') = length (streams (c\<lparr>pb := ?p, streams := streams c @ [st']\<rparr>)) + n"
    by (intro Suc.IH) simp_all
  with st show ?case by simp
qed

lemma read_stream_table_replicate_too_many:
  assumes "avcodec_find_decoder_by_name reg (cstr ''pcm_'' @ sfx) = Some codec"
    and "avcodec_type codec = AVMEDIA_TYPE_AUDIO"
    and "0 < av_get_bits_per_sample reg (avcodec_id codec)"
    and "0 \<notin> set sfx" and "length sfx < 28"
  shows "pb c = concat (replicate n (STREAM_AUDIO # sfx @ [0, r0, r1, r2, r3, ch])) @ STREAM_NONE # rest \<Longrightarrow>
         256 < length (streams c) + n \<Longrightarrow> length (streams c) \<le> 256 \<Longrightarrow> 256 < max_streams c \<Longrightarrow>
         \<exists>c'. read_stream_table reg c = (Some Too_many_streams, c') \<and> length (streams c') = 257"
proof (induction n arbitrary: c)
  case 0
  then show ?case by simp
next
  case (Suc n)
  let ?p = "concat (replicate n (STREAM_AUDIO # sfx @ [0, r0, r1, r2, r3, ch])) @ STREAM_NONE # rest"
  from Suc.prems(1) have p: "pb c = STREAM_AUDIO # sfx @ 0 # r0 # r1 # r2 # r3 # ch # ?p"
    by simp
  show ?case
  proof (cases "length (streams c) = 256")
    case True
    let ?q = "sfx @ 0 # r0 # r1 # r2 # r3 # ch # ?p"
    from True Suc.prems(4) have "read_stream reg STREAM_AUDIO (c\<lparr>pb := ?q\<rparr>) =
        (Some Too_many_streams, c\<lparr>pb := ?q, streams := streams c @ [blank_stream 256]\<rparr>)"
      by (simp add: read_stream_def avformat_new_stream_def Let_def index_blank_stream)
    with p have "read_stream_table reg c =
        (Some Too_many_streams, c\<lparr>pb := ?q, streams := streams c @ [blank_stream 256]\<rparr>)"
      by (intro read_stream_table_fail [where t = STREAM_AUDIO])
         (simp_all add: STREAM_AUDIO_def STREAM_NONE_def)
    with True show ?thesis by simp
  next
    case False
    with Suc.prems(3,4) have "length (streams c) \<le> 255" "length (streams c) < max_streams c"
      by simp_all
    from read_stream_table_audio_pass [OF assms p this]
    obtain st' where st: "read_stream_table reg c =
        read_stream_table reg (c\<lparr>pb := ?p, streams := streams c @ [st']\<rparr>)"
      by blast
    from Suc.prems(2,3,4) False
    have "\<exists>c'. read_stream_table reg (c\<lparr>pb := ?p, streams := streams c @ [st']\<rparr>) =
            (Some Too_many_streams, c') \<and> length (streams c') = 257"
      by (intro Suc.IH) simp_all
    with st show ?thesis by simp
  qed
qed

section \<open>The example inputs, evaluated\<close>

lemma example_packet_read:
  "rawmux_read_packet (example_context (example_packet @ bs)) =
     Inr (\<lparr> data = [10, 20, 30], pts = 1, dts = 1, stream_index = 200 \<rparr>, example_context bs)"
  by (simp add: rawmux_read_packet_def example_context_def example_packet_def
        avio_r8_Cons avio_rl32_Cons avio_rl64_Cons av_get_packet_def)



lemma example_names:
  "avio_get_str (cstr ''rgba'' @ 0 # bs) 32 32 = (cstr ''rgba'', bs)"
  "avio_get_str (cstr ''s16le'' @ 0 # bs) 28 28 = (cstr ''s16le'', bs)"
  "cstr ''pcm_'' @ cstr ''s16le'' = cstr ''pcm_s16le''"
  using avio_get_str_terminated [of "cstr ''rgba''" 32 32 bs]
    avio_get_str_terminated [of "cstr ''s16le''" 28 28 bs]
  by (simp_all add: cstr_def)

lemma example_read_video:
  "read_video example_registry (blank_stream i) (example_video @ bs) =
     (None, example_video_stream i, bs)"
proof -
  have h: "example_video @ bs =
        cstr ''rgba'' @ 0 # 1 # 0 # 0 # 0 # 30 # 0 # 0 # 0 # 2 # 0 # 0 # 0 # 2 # 0 # 0 # 0 # bs"
    by (simp add: example_video_def)
  show ?thesis
    by (subst h, simp add: read_video_def example_names avio_rl32_Cons example_registry_def
          AV_PIX_FMT_NONE_def avpriv_set_pts_info_def to_unsigned_def av_rescale_q_def
          blank_stream_def example_video_stream_def)
qed

lemma example_read_audio:
  "read_audio example_registry (blank_stream i) (example_audio @ bs) =
     (None, example_audio_stream i, bs)"
proof -
  have h: "example_audio @ bs = cstr ''s16le'' @ 0 # 68 # 172 # 0 # 0 # 2 # bs"
    by (simp add: example_audio_def)
  show ?thesis
    by (subst h, simp add: read_audio_def example_names avio_rl32_Cons avio_r8_Cons example_registry_def
          avpriv_set_pts_info_def to_unsigned_def to_int_def
          blank_stream_def example_audio_stream_def)
qed

lemma example_header_read:
  "rawmux_read_header example_registry (example_context example_header) =
     (None, \<lparr> pb = [], streams = [example_video_stream 0, example_audio_stream 1],
             max_streams = 1000 \<rparr>)"
proof -
  let ?c0 = "\<lparr> pb = STREAM_VIDEO # example_video @ STREAM_AUDIO # example_audio @ [STREAM_NONE],
               streams = [], max_streams = 1000 \<rparr>"
  let ?c1 = "\<lparr> pb = STREAM_AUDIO # example_audio @ [STREAM_NONE],
               streams = [example_video_stream 0], max_streams = 1000 \<rparr>"
  let ?c2 = "\<lparr> pb = [STREAM_NONE],
               streams = [example_video_stream 0, example_audio_stream 1], max_streams = 1000 \<rparr>"
  have "rawmux_read_header example_registry (example_context example_header) =
        read_stream_table example_registry ?c0"
    using rawmux_read_header_table [of "example_context example_header" HEADER
        "STREAM_VIDEO # example_video @ STREAM_AUDIO # example_audio @ [STREAM_NONE]" example_registry]
    by (simp add: example_context_def example_header_def length_HEADER
          STREAM_NONE_def STREAM_VIDEO_def STREAM_AUDIO_def)
  also have "\<dots> = read_stream_table example_registry ?c1"
  proof (rule read_stream_table_step)
    show "pb ?c0 = STREAM_VIDEO # example_video @ STREAM_AUDIO # example_audio @ [STREAM_NONE]"
      by simp
    show "STREAM_VIDEO \<noteq> STREAM_NONE"
      by (simp add: STREAM_NONE_def STREAM_VIDEO_def)
    show "read_stream example_registry STREAM_VIDEO
            (?c0\<lparr>pb := example_video @ STREAM_AUDIO # example_audio @ [STREAM_NONE]\<rparr>) = (None, ?c1)"
      using read_stream_video [of "?c0\<lparr>pb := example_video @ STREAM_AUDIO # example_audio @ [STREAM_NONE]\<rparr>"
          example_registry None "example_video_stream 0" "STREAM_AUDIO # example_audio @ [STREAM_NONE]"]
      by (simp add: example_read_video)
  qed
  also have "\<dots> = read_stream_table example_registry ?c2"
  proof (rule read_stream_table_step)
    show "pb ?c1 = STREAM_AUDIO # example_audio @ [STREAM_NONE]"
      by simp
    show "STREAM_AUDIO \<noteq> STREAM_NONE"
      by (simp add: STREAM_NONE_def STREAM_AUDIO_def)
    show "read_stream example_registry STREAM_AUDIO (?c1\<lparr>pb := example_audio @ [STREAM_NONE]\<rparr>) =
            (None, ?c2)"
      using read_stream_audio [of "?c1\<lparr>pb := example_audio @ [STREAM_NONE]\<rparr>"
          example_registry None "example_audio_stream 1" "[STREAM_NONE]"]
      by (simp add: example_read_audio)
  qed
  also have "\<dots> = (None, ?c2\<lparr>pb := []\<rparr>)"
    by (rule read_stream_table_end) simp
  finally show ?thesis by simp
qed

lemma zero_num_video_reads:
  "avio_get_str (zero_num_video @ bs) 32 32 =
     (cstr ''rgba'', 0 # 0 # 0 # 0 # 30 # 0 # 0 # 0 # 2 # 0 # 0 # 0 # 2 # 0 # 0 # 0 # bs)"
  "av_get_pix_fmt example_registry (cstr ''rgba'') \<noteq> AV_PIX_FMT_NONE"
  "avio_rl32 (0 # 0 # 0 # 0 # 30 # 0 # 0 # 0 # 2 # 0 # 0 # 0 # 2 # 0 # 0 # 0 # bs) =
     (0, 30 # 0 # 0 # 0 # 2 # 0 # 0 # 0 # 2 # 0 # 0 # 0 # bs)"
  "avio_rl32 (30 # 0 # 0 # 0 # 2 # 0 # 0 # 0 # 2 # 0 # 0 # 0 # bs) =
     (30, 2 # 0 # 0 # 0 # 2 # 0 # 0 # 0 # bs)"
  "avio_rl32 (2 # 0 # 0 # 0 # 2 # 0 # 0 # 0 # bs) = (2, 2 # 0 # 0 # 0 # bs)"
  "avio_rl32 (2 # 0 # 0 # 0 # bs) = (2, bs)"
  "0 \<le> av_image_get_buffer_size example_registry (av_get_pix_fmt example_registry (cstr ''rgba''))
         (sint (2 :: 32 word)) (sint (2 :: 32 word)) 1"
  using example_names(1) [of "0 # 0 # 0 # 0 # 30 # 0 # 0 # 0 # 2 # 0 # 0 # 0 # 2 # 0 # 0 # 0 # bs"]
  by (simp_all add: zero_num_video_def avio_rl32_Cons example_registry_def AV_PIX_FMT_NONE_def)

lemma zero_den_video_reads:
  "avio_get_str (zero_den_video @ bs) 32 32 =
     (cstr ''rgba'', 1 # 0 # 0 # 0 # 0 # 0 # 0 # 0 # 2 # 0 # 0 # 0 # 2 # 0 # 0 # 0 # bs)"
  "av_get_pix_fmt example_registry (cstr ''rgba'') \<noteq> AV_PIX_FMT_NONE"
  "avio_rl32 (1 # 0 # 0 # 0 # 0 # 0 # 0 # 0 # 2 # 0 # 0 # 0 # 2 # 0 # 0 # 0 # bs) =
     (1, 0 # 0 # 0 # 0 # 2 # 0 # 0 # 0 # 2 # 0 # 0 # 0 # bs)"
  "avio_rl32 (0 # 0 # 0 # 0 # 2 # 0 # 0 # 0 # 2 # 0 # 0 # 0 # bs) =
     (0, 2 # 0 # 0 # 0 # 2 # 0 # 0 # 0 # bs)"
  "avio_rl32 (2 # 0 # 0 # 0 # 2 # 0 # 0 # 0 # bs) = (2, 2 # 0 # 0 # 0 # bs)"
  "avio_rl32 (2 # 0 # 0 # 0 # bs) = (2, bs)"
  "0 \<le> av_image_get_buffer_size example_registry (av_get_pix_fmt example_registry (cstr ''rgba''))
         (sint (2 :: 32 word)) (sint (2 :: 32 word)) 1"
  using example_names(1) [of "1 # 0 # 0 # 0 # 0 # 0 # 0 # 0 # 2 # 0 # 0 # 0 # 2 # 0 # 0 # 0 # bs"]
  by (simp_all add: zero_den_video_def avio_rl32_Cons example_registry_def AV_PIX_FMT_NONE_def)








section \<open>The probe\<close>

text \<open>
  C5. A buffer shorter than the six bytes of the magic, or whose first six bytes differ
  from it, scores 0; a buffer whose first six bytes are the magic scores
  \<open>AVPROBE_SCORE_MAX\<close>, whatever follows.
\<close>
theorem rawmux_read_probe_score:
  "(length (buf p) < 6 \<or> take 6 (buf p) \<noteq> HEADER \<longrightarrow> rawmux_read_probe p = 0) \<and>
   (take 6 (buf p) = HEADER \<longrightarrow> rawmux_read_probe p = AVPROBE_SCORE_MAX)"
proof -
  have "6 \<le> length (buf p)" if "take 6 (buf p) = HEADER"
  proof -
    from that have "length (take 6 (buf p)) = 6"
      by (simp only: length_HEADER)
    then show ?thesis by simp
  qed
  then show ?thesis
    by (auto simp: rawmux_read_probe_def buf_size_def length_HEADER)
qed

text \<open>The magic followed by two bytes, a buffer of three bytes, and a wrong sixth byte.\<close>
theorem rawmux_read_probe_score_witness:
  "take 6 (buf \<lparr> buf = [114, 97, 119, 109, 117, 120, 1, 0] \<rparr>) = HEADER \<and>
   rawmux_read_probe \<lparr> buf = [114, 97, 119, 109, 117, 120, 1, 0] \<rparr> = AVPROBE_SCORE_MAX \<and>
   length (buf \<lparr> buf = [114, 97, 119] \<rparr>) < 6 \<and>
   rawmux_read_probe \<lparr> buf = [114, 97, 119] \<rparr> = 0 \<and>
   take 6 (buf \<lparr> buf = [114, 97, 119, 109, 117, 121, 1, 0] \<rparr>) \<noteq> HEADER \<and>
   rawmux_read_probe \<lparr> buf = [114, 97, 119, 109, 117, 121, 1, 0] \<rparr> = 0"
  using rawmux_read_probe_score [of "\<lparr> buf = [114, 97, 119, 109, 117, 120, 1, 0] \<rparr>"]
    rawmux_read_probe_score [of "\<lparr> buf = [114, 97, 119] \<rparr>"]
    rawmux_read_probe_score [of "\<lparr> buf = [114, 97, 119, 109, 117, 121, 1, 0] \<rparr>"]
  by (simp add: HEADER_def cstr_def)

section \<open>The header\<close>

text \<open>
  C6. When the byte after the six bytes of the magic is not 1, \<open>rawmux_read_header\<close>
  fails with \<open>Invalid_version\<close> (UnsupportedVersion), whatever the bytes that follow;
  the context it leaves differs from the one it got only in the cursor, so no stream was
  created.
\<close>
theorem rawmux_read_header_version:
  assumes "pb avctx = magic @ version # rest"
    and "length magic = 6"
    and "version \<noteq> 1"
  shows "rawmux_read_header reg avctx = (Some (Invalid_version version), avctx\<lparr>pb := rest\<rparr>) \<and>
         streams (snd (rawmux_read_header reg avctx)) = streams avctx"
  using assms
  by (simp add: rawmux_read_header_def avio_skip_def length_HEADER avio_r8_Cons)

text \<open>Version 2, followed by a video type byte and a terminator.\<close>
theorem rawmux_read_header_version_witness:
  "pb (example_context (HEADER @ [2, 1, 0])) = HEADER @ 2 # [1, 0] \<and> length HEADER = 6 \<and>
   (2 :: byte) \<noteq> 1 \<and>
   rawmux_read_header example_registry (example_context (HEADER @ [2, 1, 0])) =
     (Some (Invalid_version 2), example_context [1, 0])"
  using rawmux_read_header_version [of "example_context (HEADER @ [2, 1, 0])" HEADER 2 "[1, 0]"
      example_registry]
  by (simp add: example_context_def length_HEADER)

text \<open>
  C7. In every pass of the loop the type byte is compared with the terminator first: a
  type byte 0 ends the loop with success whatever follows it, and a type byte above
  \<open>STREAM_AUDIO\<close> (2) fails with \<open>Invalid_stream_type\<close> with the list of streams
  as it was, no stream being allocated for it.
\<close>
theorem read_stream_table_type_byte:
  "(pb avctx = STREAM_NONE # rest \<longrightarrow>
      read_stream_table reg avctx = (None, avctx\<lparr>pb := rest\<rparr>)) \<and>
   (pb avctx = t # rest \<and> STREAM_AUDIO < t \<longrightarrow>
      read_stream_table reg avctx = (Some (Invalid_stream_type t), avctx\<lparr>pb := rest\<rparr>))"
proof -
  have "t \<noteq> STREAM_NONE" if "STREAM_AUDIO < t"
    using that by (auto simp: STREAM_NONE_def STREAM_AUDIO_def)
  then show ?thesis
    by (subst (1 2) read_stream_table.simps) (auto simp: avio_r8_Cons read_stream_def)
qed

text \<open>A terminator followed by two bytes, and the type byte 3.\<close>
theorem read_stream_table_type_byte_witness:
  "pb (example_context [0, 7, 7]) = STREAM_NONE # [7, 7] \<and>
   read_stream_table example_registry (example_context [0, 7, 7]) = (None, example_context [7, 7]) \<and>
   pb (example_context [3, 0]) = 3 # [0] \<and> STREAM_AUDIO < 3 \<and>
   read_stream_table example_registry (example_context [3, 0]) =
     (Some (Invalid_stream_type 3), example_context [0])"
  using read_stream_table_type_byte [where avctx = "example_context [0, 7, 7]" and rest = "[7, 7]"
      and reg = example_registry]
    read_stream_table_type_byte [where avctx = "example_context [3, 0]" and rest = "[0]"
      and reg = example_registry and t = 3]
  by (simp add: example_context_def STREAM_NONE_def STREAM_AUDIO_def)

text \<open>
  C2. A decode that starts with no stream fails with \<open>Too_many_streams\<close>
  (TooManyStreams) exactly when it has allocated a 257th stream (index 256), on any input
  and with any registry. In particular a table of \<open>n\<close> audio descriptors that the
  registry resolves, followed by the terminator, is accepted with \<open>n\<close> streams when
  \<open>n\<close> is at most 256, and fails with \<open>Too_many_streams\<close> on allocating the
  257th otherwise (the context must let that many streams be allocated).
\<close>
theorem rawmux_read_header_too_many_streams:
  assumes "streams avctx = []"
  shows "((fst (rawmux_read_header reg avctx) = Some Too_many_streams) =
          (length (streams (snd (rawmux_read_header reg avctx))) = 257)) \<and>
         (avcodec_find_decoder_by_name reg (cstr ''pcm_'' @ sfx) = Some codec \<and>
          avcodec_type codec = AVMEDIA_TYPE_AUDIO \<and>
          0 < av_get_bits_per_sample reg (avcodec_id codec) \<and>
          0 \<notin> set sfx \<and> length sfx < 28 \<and> 256 < max_streams avctx \<and> length magic = 6 \<and>
          pb avctx = magic @ 1 # concat (replicate n (STREAM_AUDIO # sfx @ [0, r0, r1, r2, r3, ch])) @
                       STREAM_NONE # rest \<longrightarrow>
          fst (rawmux_read_header reg avctx) = (if n \<le> 256 then None else Some Too_many_streams) \<and>
          length (streams (snd (rawmux_read_header reg avctx))) = min n 257)"
proof (intro conjI impI)
  obtain v p where v: "avio_r8 (avio_skip (pb avctx) (length HEADER)) = (v, p)"
    by (cases "avio_r8 (avio_skip (pb avctx) (length HEADER))")
  show "(fst (rawmux_read_header reg avctx) = Some Too_many_streams) =
        (length (streams (snd (rawmux_read_header reg avctx))) = 257)"
  proof (cases "v = 1")
    case False
    with v assms show ?thesis
      by (simp add: rawmux_read_header_def)
  next
    case True
    obtain r c where t: "read_stream_table reg (avctx\<lparr>pb := p\<rparr>) = (r, c)"
      by (cases "read_stream_table reg (avctx\<lparr>pb := p\<rparr>)")
    with v True have "rawmux_read_header reg avctx = (r, c)"
      by (simp add: rawmux_read_header_def)
    moreover from read_stream_table_count [OF t] assms
    have "(r = Some Too_many_streams \<longrightarrow> length (streams c) = 257) \<and>
          (r \<noteq> Some Too_many_streams \<longrightarrow> length (streams c) \<le> 256)"
      by simp
    ultimately show ?thesis by auto
  qed
next
  let ?p = "concat (replicate n (STREAM_AUDIO # sfx @ [0, r0, r1, r2, r3, ch])) @ STREAM_NONE # rest"
  assume a: "avcodec_find_decoder_by_name reg (cstr ''pcm_'' @ sfx) = Some codec \<and>
          avcodec_type codec = AVMEDIA_TYPE_AUDIO \<and>
          0 < av_get_bits_per_sample reg (avcodec_id codec) \<and>
          0 \<notin> set sfx \<and> length sfx < 28 \<and> 256 < max_streams avctx \<and> length magic = 6 \<and>
          pb avctx = magic @ 1 # ?p"
  then have h: "rawmux_read_header reg avctx = read_stream_table reg (avctx\<lparr>pb := ?p\<rparr>)"
    by (intro rawmux_read_header_table [where magic = magic]) simp_all
  have "fst (read_stream_table reg (avctx\<lparr>pb := ?p\<rparr>)) =
          (if n \<le> 256 then None else Some Too_many_streams) \<and>
        length (streams (snd (read_stream_table reg (avctx\<lparr>pb := ?p\<rparr>)))) = min n 257"
  proof (cases "n \<le> 256")
    case True
    with a assms have "\<exists>c'. read_stream_table reg (avctx\<lparr>pb := ?p\<rparr>) = (None, c') \<and>
        length (streams c') = length (streams (avctx\<lparr>pb := ?p\<rparr>)) + n"
      by (intro read_stream_table_replicate_accepted [where codec = codec and rest = rest]) simp_all
    with True assms show ?thesis by auto
  next
    case False
    with a assms have "\<exists>c'. read_stream_table reg (avctx\<lparr>pb := ?p\<rparr>) = (Some Too_many_streams, c') \<and>
        length (streams c') = 257"
      by (intro read_stream_table_replicate_too_many [where codec = codec and rest = rest and n = n])
         simp_all
    with False show ?thesis by auto
  qed
  with h show "fst (rawmux_read_header reg avctx) = (if n \<le> 256 then None else Some Too_many_streams)"
    and "length (streams (snd (rawmux_read_header reg avctx))) = min n 257"
    by simp_all
qed

text \<open>Tables of 256 and of 257 descriptors of the example audio stream.\<close>
theorem rawmux_read_header_too_many_streams_witness:
  "streams (example_context (HEADER @ 1 # concat (replicate 256 (STREAM_AUDIO # example_audio)) @
      [STREAM_NONE])) = [] \<and>
   fst (rawmux_read_header example_registry
     (example_context (HEADER @ 1 # concat (replicate 256 (STREAM_AUDIO # example_audio)) @
        [STREAM_NONE]))) = None \<and>
   length (streams (snd (rawmux_read_header example_registry
     (example_context (HEADER @ 1 # concat (replicate 256 (STREAM_AUDIO # example_audio)) @
        [STREAM_NONE]))))) = 256 \<and>
   fst (rawmux_read_header example_registry
     (example_context (HEADER @ 1 # concat (replicate 257 (STREAM_AUDIO # example_audio)) @
        [STREAM_NONE]))) = Some Too_many_streams \<and>
   length (streams (snd (rawmux_read_header example_registry
     (example_context (HEADER @ 1 # concat (replicate 257 (STREAM_AUDIO # example_audio)) @
        [STREAM_NONE]))))) = 257"
proof -
  have reg: "avcodec_find_decoder_by_name example_registry (cstr ''pcm_'' @ cstr ''s16le'') =
          Some \<lparr> avcodec_id = AV_CODEC_ID 65536, avcodec_type = AVMEDIA_TYPE_AUDIO \<rparr> \<and>
        avcodec_type \<lparr> avcodec_id = AV_CODEC_ID 65536, avcodec_type = AVMEDIA_TYPE_AUDIO \<rparr> =
          AVMEDIA_TYPE_AUDIO \<and>
        0 < av_get_bits_per_sample example_registry
              (avcodec_id \<lparr> avcodec_id = AV_CODEC_ID 65536, avcodec_type = AVMEDIA_TYPE_AUDIO \<rparr>) \<and>
        0 \<notin> set (cstr ''s16le'') \<and> length (cstr ''s16le'') < 28"
    by (simp add: example_registry_def cstr_def)
  have ctx: "streams (example_context bs) = []" "256 < max_streams (example_context bs)"
    "pb (example_context bs) = bs" for bs
    by (simp_all add: example_context_def)
  have desc: "STREAM_AUDIO # example_audio = STREAM_AUDIO # cstr ''s16le'' @ [0, 68, 172, 0, 0, 2]"
    by (simp add: example_audio_def)
  show ?thesis
    using rawmux_read_header_too_many_streams [where reg = example_registry
        and avctx = "example_context (HEADER @ 1 # concat (replicate 256 (STREAM_AUDIO # example_audio)) @ [STREAM_NONE])"
        and sfx = "cstr ''s16le''" and magic = HEADER and n = 256 and rest = "[]"
        and codec = "\<lparr> avcodec_id = AV_CODEC_ID 65536, avcodec_type = AVMEDIA_TYPE_AUDIO \<rparr>"
        and ?r0.0 = 68 and ?r1.0 = 172 and ?r2.0 = 0 and ?r3.0 = 0 and ch = 2]
      rawmux_read_header_too_many_streams [where reg = example_registry
        and avctx = "example_context (HEADER @ 1 # concat (replicate 257 (STREAM_AUDIO # example_audio)) @ [STREAM_NONE])"
        and sfx = "cstr ''s16le''" and magic = HEADER and n = 257 and rest = "[]"
        and codec = "\<lparr> avcodec_id = AV_CODEC_ID 65536, avcodec_type = AVMEDIA_TYPE_AUDIO \<rparr>"
        and ?r0.0 = 68 and ?r1.0 = 172 and ?r2.0 = 0 and ?r3.0 = 0 and ch = 2]
      reg
    by (simp only: ctx desc length_HEADER) simp
qed




text \<open>
  C10. The loop tests neither value of the time base. Whatever the two values read are,
  zero included, a video descriptor whose pixel format resolves and whose buffer size is
  not negative is accepted: its stream gets the two values as its time base and the loop
  goes on with the next type byte. When the numerator is not 0 the bit rate is the
  rounded quotient; when it is 0 the rescale is asked to divide by zero and the bit rate
  is whatever it returns then.
\<close>
theorem read_stream_table_time_base_unchecked:
  assumes "pb avctx = STREAM_VIDEO # p0"
    and "length (streams avctx) \<le> 255" and "length (streams avctx) < max_streams avctx"
    and "avio_get_str p0 32 32 = (name, p1)"
    and "avio_rl32 p1 = (n, p2)" and "avio_rl32 p2 = (d, p3)"
    and "avio_rl32 p3 = (w, p4)" and "avio_rl32 p4 = (h, p5)"
    and "av_get_pix_fmt reg name \<noteq> AV_PIX_FMT_NONE"
    and "0 \<le> av_image_get_buffer_size reg (av_get_pix_fmt reg name) (sint w) (sint h) 1"
  shows "\<exists>st'. read_stream reg STREAM_VIDEO (avctx\<lparr>pb := p0\<rparr>) =
                 (None, avctx\<lparr>pb := p5, streams := streams avctx @ [st']\<rparr>) \<and>
           read_stream_table reg avctx =
             read_stream_table reg (avctx\<lparr>pb := p5, streams := streams avctx @ [st']\<rparr>) \<and>
           time_base st' = \<lparr> num = uint n, den = uint d \<rparr> \<and>
           (n \<noteq> 0 \<longrightarrow>
              bit_rate (codecpar st') =
                round (real_of_int
                         (av_image_get_buffer_size reg (av_get_pix_fmt reg name) (sint w) (sint h) 1 *
                          8 * uint d) /
                       real_of_int (uint n))) \<and>
           (n = 0 \<longrightarrow>
              bit_rate (codecpar st') =
                rescale_zero_divisor reg
                  (av_image_get_buffer_size reg (av_get_pix_fmt reg name) (sint w) (sint h) 1)
                  (8 * uint d))"
proof -
  let ?b = "blank_stream (length (streams avctx))"
  let ?fs = "av_image_get_buffer_size reg (av_get_pix_fmt reg name) (sint w) (sint h) 1"
  let ?st = "fst (snd (read_video reg ?b p0))"
  let ?c = "avctx\<lparr>pb := p5, streams := streams avctx @ [?st]\<rparr>"
  note acc = read_video_accepts [OF assms(4-10), of ?b]
  from read_stream_video [where c = "avctx\<lparr>pb := p0\<rparr>" and reg = reg and r = None
      and st' = ?st and p' = p5] assms(2,3) acc
  have s: "read_stream reg STREAM_VIDEO (avctx\<lparr>pb := p0\<rparr>) = (None, ?c)"
    by simp
  have "STREAM_VIDEO \<noteq> STREAM_NONE"
    by (simp add: STREAM_VIDEO_def STREAM_NONE_def)
  with assms(1) s have t: "read_stream_table reg avctx = read_stream_table reg ?c"
    by (intro read_stream_table_step [where t = STREAM_VIDEO and p = p0])
  have tb: "time_base ?st = \<lparr> num = uint n, den = uint d \<rparr>"
    by (simp add: acc)
  have br: "bit_rate (codecpar ?st) =
      av_rescale_q reg ?fs \<lparr> num = 8, den = 1 \<rparr> \<lparr> num = uint n, den = uint d \<rparr>"
    by (simp add: acc)
  have nz: "bit_rate (codecpar ?st) = round (real_of_int (?fs * 8 * uint d) / real_of_int (uint n))"
    if "n \<noteq> 0"
  proof -
    from that have "num \<lparr> num = uint n, den = uint d \<rparr> * den \<lparr> num = 8, den = 1 \<rparr> \<noteq> 0"
      by (simp add: uint_nonzero)
    from av_rescale_q_round [OF this, of reg ?fs] show ?thesis
      unfolding br by (simp add: mult.assoc)
  qed
  have z: "bit_rate (codecpar ?st) = rescale_zero_divisor reg ?fs (8 * uint d)" if "n = 0"
    using that av_rescale_q_zero [of "\<lparr> num = uint n, den = uint d \<rparr>" "\<lparr> num = 8, den = 1 \<rparr>" reg ?fs]
    unfolding br by simp
  show ?thesis
  proof (intro exI [of _ ?st] conjI impI)
    show "read_stream reg STREAM_VIDEO (avctx\<lparr>pb := p0\<rparr>) = (None, ?c)"
      by (rule s)
    show "read_stream_table reg avctx = read_stream_table reg ?c"
      by (rule t)
    show "time_base ?st = \<lparr> num = uint n, den = uint d \<rparr>"
      by (rule tb)
    show "bit_rate (codecpar ?st) = round (real_of_int (?fs * 8 * uint d) / real_of_int (uint n))"
      if "n \<noteq> 0"
      using that by (rule nz)
    show "bit_rate (codecpar ?st) = rescale_zero_divisor reg ?fs (8 * uint d)" if "n = 0"
      using that by (rule z)
  qed
qed

text \<open>
  The example descriptor with the numerator 0 and with the denominator 0: both are
  accepted and the loop reaches the terminator.
\<close>
theorem read_stream_table_time_base_unchecked_witness:
  "fst (read_stream_table example_registry
     (example_context (STREAM_VIDEO # zero_num_video @ [STREAM_NONE]))) = None \<and>
   map time_base (streams (snd (read_stream_table example_registry
     (example_context (STREAM_VIDEO # zero_num_video @ [STREAM_NONE]))))) =
     [\<lparr> num = 0, den = 30 \<rparr>] \<and>
   map (bit_rate \<circ> codecpar) (streams (snd (read_stream_table example_registry
     (example_context (STREAM_VIDEO # zero_num_video @ [STREAM_NONE]))))) =
     [rescale_zero_divisor example_registry 16 240] \<and>
   fst (read_stream_table example_registry
     (example_context (STREAM_VIDEO # zero_den_video @ [STREAM_NONE]))) = None \<and>
   map time_base (streams (snd (read_stream_table example_registry
     (example_context (STREAM_VIDEO # zero_den_video @ [STREAM_NONE]))))) =
     [\<lparr> num = 1, den = 0 \<rparr>] \<and>
   map (bit_rate \<circ> codecpar) (streams (snd (read_stream_table example_registry
     (example_context (STREAM_VIDEO # zero_den_video @ [STREAM_NONE]))))) = [0]"
proof -
  let ?cn = "example_context (STREAM_VIDEO # zero_num_video @ [STREAM_NONE])"
  let ?cd = "example_context (STREAM_VIDEO # zero_den_video @ [STREAM_NONE])"
  have ctx: "pb (example_context (STREAM_VIDEO # bs)) = STREAM_VIDEO # bs"
    "length (streams (example_context bs)) \<le> 255"
    "length (streams (example_context bs)) < max_streams (example_context bs)"
    "streams (example_context bs) = []" for bs
    by (simp_all add: example_context_def)
  have fs: "av_image_get_buffer_size example_registry (av_get_pix_fmt example_registry (cstr ''rgba''))
              2 2 1 = 16"
    by (simp add: example_registry_def)
  from read_stream_table_time_base_unchecked [where reg = example_registry and avctx = ?cn,
      OF ctx(1) ctx(2) ctx(3) zero_num_video_reads(1,3,4,5,6,2,7)]
  obtain sn where n:
    "read_stream_table example_registry ?cn =
       read_stream_table example_registry (?cn\<lparr>pb := [STREAM_NONE], streams := streams ?cn @ [sn]\<rparr>)"
    "time_base sn = \<lparr> num = 0, den = 30 \<rparr>"
    "bit_rate (codecpar sn) = rescale_zero_divisor example_registry 16 240"
    by (auto simp: fs)
  from read_stream_table_time_base_unchecked [where reg = example_registry and avctx = ?cd,
      OF ctx(1) ctx(2) ctx(3) zero_den_video_reads(1,3,4,5,6,2,7)]
  obtain sd where d:
    "read_stream_table example_registry ?cd =
       read_stream_table example_registry (?cd\<lparr>pb := [STREAM_NONE], streams := streams ?cd @ [sd]\<rparr>)"
    "time_base sd = \<lparr> num = 1, den = 0 \<rparr>"
    "bit_rate (codecpar sd) = 0"
    by (auto simp: fs)
  have "read_stream_table example_registry ?cn =
          (None, ?cn\<lparr>pb := [], streams := [sn]\<rparr>)"
    unfolding n(1) using read_stream_table_end [where c = "?cn\<lparr>pb := [STREAM_NONE], streams := streams ?cn @ [sn]\<rparr>"
        and p = "[]" and reg = example_registry]
    by (simp add: ctx)
  moreover have "read_stream_table example_registry ?cd =
          (None, ?cd\<lparr>pb := [], streams := [sd]\<rparr>)"
    unfolding d(1) using read_stream_table_end [where c = "?cd\<lparr>pb := [STREAM_NONE], streams := streams ?cd @ [sd]\<rparr>"
        and p = "[]" and reg = example_registry]
    by (simp add: ctx)
  ultimately show ?thesis
    by (simp add: n d)
qed




section \<open>Packets\<close>

text \<open>
  C8. A packet that \<open>rawmux_read_packet\<close> returns has \<open>pts\<close> and \<open>dts\<close> equal to
  the 64-bit timestamp of its header and \<open>stream_index\<close> equal to the byte read first.
  The list of streams plays no part: with any other list the same packet is returned.
\<close>
theorem rawmux_read_packet_fields:
  assumes "rawmux_read_packet avctx = Inr (pkt, avctx')"
  shows "pts pkt = sint (fst (avio_rl64 (snd (avio_rl32 (snd (avio_r8 (pb avctx))))))) \<and>
         dts pkt = pts pkt \<and>
         stream_index pkt = uint (fst (avio_r8 (pb avctx))) \<and>
         rawmux_read_packet (avctx\<lparr>streams := ss\<rparr>) = Inr (pkt, avctx'\<lparr>streams := ss\<rparr>)"
proof -
  obtain stream pb1 where r1: "avio_r8 (pb avctx) = (stream, pb1)"
    by (cases "avio_r8 (pb avctx)")
  obtain sz pb2 where r2: "avio_rl32 pb1 = (sz, pb2)"
    by (cases "avio_rl32 pb1")
  obtain ts pb3 where r3: "avio_rl64 pb2 = (ts, pb3)"
    by (cases "avio_rl64 pb2")
  show ?thesis
  proof (cases "av_get_packet pb3 (sint sz)")
    case (Inl e)
    with assms r1 r2 r3 show ?thesis
      by (simp add: rawmux_read_packet_def)
  next
    case (Inr res)
    then obtain payload pb4 where "av_get_packet pb3 (sint sz) = Inr (payload, pb4)"
      by (cases res) simp
    with assms r1 r2 r3 show ?thesis
      by (auto simp: rawmux_read_packet_def Let_def)
  qed
qed

text \<open>A packet for stream 200, read with no stream in the context and with one.\<close>
theorem rawmux_read_packet_fields_witness:
  "rawmux_read_packet (example_context example_packet) =
     Inr (\<lparr> data = [10, 20, 30], pts = 1, dts = 1, stream_index = 200 \<rparr>, example_context []) \<and>
   streams (example_context example_packet) = [] \<and>
   pts \<lparr> data = [10, 20, 30], pts = 1, dts = 1, stream_index = 200 \<rparr> = 1 \<and>
   rawmux_read_packet ((example_context example_packet)\<lparr>streams := [blank_stream 0]\<rparr>) =
     Inr (\<lparr> data = [10, 20, 30], pts = 1, dts = 1, stream_index = 200 \<rparr>,
          (example_context [])\<lparr>streams := [blank_stream 0]\<rparr>)"
  using example_packet_read [of "[]"]
    rawmux_read_packet_fields [of "example_context example_packet"
      "\<lparr> data = [10, 20, 30], pts = 1, dts = 1, stream_index = 200 \<rparr>" "example_context []"
      "[blank_stream 0]"]
  by (simp add: example_context_def)





end
